theory Spec2Isabelle
  imports Complex_Main
begin

section \<open>Data model of the rhythm game (src/components/RhythmGame.tsx)\<close>

text \<open>
  JavaScript numbers that carry times and pixel positions are modelled as \<^typ>\<open>real\<close>
  (rounding of IEEE doubles is outside the model); the score, key codes and MIDI pitches
  are integers. A property lookup that yields \<open>undefined\<close> is \<open>None\<close>.
\<close>

datatype Direction = LEFT | UP | RIGHT | DOWN

text \<open>The constant object \<open>ARROW_KEYS\<close>, indexed by key code and by MIDI pitch alike.\<close>

definition ARROW_KEYS :: "int \<rightharpoonup> Direction" where
  "ARROW_KEYS = [37 \<mapsto> LEFT, 38 \<mapsto> UP, 39 \<mapsto> RIGHT, 40 \<mapsto> DOWN]"

text \<open>\<open>interface Note\<close>. The field \<open>direction\<close> holds whatever the table lookup gave.\<close>

record Note =
  time :: real
  direction :: "Direction option"
  y :: real

text \<open>
  What \<open>loadMidi\<close> reads of a parsed MIDI file: a list of tracks, each with its list of
  note events, of which the start time in seconds and the pitch are used.
\<close>

record NoteEvent =
  evTime :: real
  midi :: int

type_synonym Track = "NoteEvent list"

datatype error = FetchError | ParseError | TypeError

text \<open>The audio element behind \<open>audioRef\<close>: its playback position and whether it plays.\<close>

record Audio =
  audioCurrentTime :: real
  audioPlaying :: bool

text \<open>
  The component state: the three \<open>useState\<close> cells, the two refs the handlers touch and the
  messages written by \<open>console.error\<close>. \<open>startTimeRef = 0\<close> is the unset start time.
\<close>

record Session =
  "notes" :: "Note list"
  isPlaying :: bool
  score :: int
  startTimeRef :: real
  audioRef :: "Audio option"
  console :: "string list"

record Canvas =
  width :: real
  height :: real

definition initialSession :: Session where
  "initialSession =
     \<lparr>notes = [], isPlaying = False, score = 0, startTimeRef = 0,
      audioRef = Some \<lparr>audioCurrentTime = 0, audioPlaying = False\<rparr>, console = []\<rparr>"

section \<open>Array helpers\<close>

text \<open>\<open>Array.prototype.findIndex\<close>: the index of the first element that passes, else \<open>-1\<close>.\<close>

fun findIndexFrom :: "('a \<Rightarrow> bool) \<Rightarrow> int \<Rightarrow> 'a list \<Rightarrow> int" where
  "findIndexFrom P i [] = -1"
| "findIndexFrom P i (x # xs) = (if P x then i else findIndexFrom P (i + 1) xs)"

definition findIndex :: "('a \<Rightarrow> bool) \<Rightarrow> 'a list \<Rightarrow> int" where
  "findIndex P xs = findIndexFrom P 0 xs"

text \<open>\<open>Array.prototype.filter\<close> with a callback that also receives the index.\<close>

fun filterFrom :: "('a \<Rightarrow> int \<Rightarrow> bool) \<Rightarrow> int \<Rightarrow> 'a list \<Rightarrow> 'a list" where
  "filterFrom P i [] = []"
| "filterFrom P i (x # xs) =
     (if P x i then x # filterFrom P (i + 1) xs else filterFrom P (i + 1) xs)"

definition filterIdx :: "('a \<Rightarrow> int \<Rightarrow> bool) \<Rightarrow> 'a list \<Rightarrow> 'a list" where
  "filterIdx P xs = filterFrom P 0 xs"

section \<open>Loading the notes (\<open>loadMidi\<close>)\<close>

text \<open>The callback of \<open>midi.tracks[0].notes.map\<close>.\<close>

definition toNote :: "NoteEvent \<Rightarrow> Note" where
  "toNote ev = \<lparr>time = evTime ev, direction = ARROW_KEYS (midi ev), y = - 100\<rparr>"

text \<open>
  The body of the \<open>try\<close> block. Its argument is the outcome of fetching the URL and of
  \<open>new Midi(arrayBuffer)\<close>: an error, or the parsed tracks. Reading \<open>.notes\<close> of
  \<open>midi.tracks[0]\<close> throws when there is no track.
\<close>

definition midiNotes :: "error + Track list \<Rightarrow> error + Note list" where
  "midiNotes fetched =
     (case fetched of
        Inl e \<Rightarrow> Inl e
      | Inr tracks \<Rightarrow>
          (case tracks of
             [] \<Rightarrow> Inl TypeError
           | track # _ \<Rightarrow> Inr (map toNote track)))"

text \<open>\<open>loadMidi\<close>: \<open>setNotes\<close> on success; the \<open>catch\<close> only writes to the console.\<close>

definition loadMidi :: "Session \<Rightarrow> error + Track list \<Rightarrow> Session" where
  "loadMidi s fetched =
     (case midiNotes fetched of
        Inr ns \<Rightarrow> s\<lparr>notes := ns\<rparr>
      | Inl e \<Rightarrow> s\<lparr>console := console s @ [''Failed to load MIDI:'']\<rparr>)"

section \<open>Input (\<open>handleKeyDown\<close>)\<close>

definition hitWindow :: real where
  "hitWindow = 0.15"

text \<open>
  The callback given to \<open>notes.findIndex\<close>; \<open>===\<close> on two \<open>undefined\<close> values is true.
  The comparison is over the reals. The code compares IEEE doubles, so an input that is
  exactly 150 ms away from a note can be judged differently there: rounding in the division
  by 1000 decides that case, and it is not part of this model.
\<close>

definition hitTest :: "int \<Rightarrow> real \<Rightarrow> Note \<Rightarrow> bool" where
  "hitTest keyCode currentTime note =
     (ARROW_KEYS keyCode = direction note \<and> \<bar>time note - currentTime\<bar> < hitWindow)"

text \<open>
  The time \<open>handleKeyDown\<close> judges with: \<open>(Date.now() - startTimeRef.current) / 1000\<close>, where
  \<open>now\<close> is the reading of \<open>Date.now()\<close> at the event. The clock is an input of the model,
  as is the timestamp that the frame callback receives.
\<close>

definition keyTime :: "Session \<Rightarrow> real \<Rightarrow> real" where
  "keyTime s now = (now - startTimeRef s) / 1000"

text \<open>The local \<open>noteIndex\<close>: the first note in list order that passes the test, or \<open>-1\<close>.\<close>

definition noteIndex :: "Session \<Rightarrow> int \<Rightarrow> real \<Rightarrow> int" where
  "noteIndex s keyCode now = findIndex (hitTest keyCode (keyTime s now)) (notes s)"

definition handleKeyDown :: "Session \<Rightarrow> int \<Rightarrow> real \<Rightarrow> Session" where
  "handleKeyDown s keyCode now =
     (if \<not> isPlaying s then s
      else if noteIndex s keyCode now \<noteq> -1
        then s\<lparr>score := score s + 100,
               notes := filterIdx (\<lambda>_ i. i \<noteq> noteIndex s keyCode now) (notes s)\<rparr>
        else s)"

section \<open>The frame callback (\<open>gameLoop\<close>)\<close>

text \<open>The start time after the latch at the head of \<open>gameLoop\<close>: \<open>0\<close> is falsy.\<close>

definition latch :: "Session \<Rightarrow> real \<Rightarrow> real" where
  "latch s timestamp = (if startTimeRef s = 0 then timestamp else startTimeRef s)"

text \<open>\<open>currentTime\<close> of \<open>gameLoop\<close>, from the timestamp the frame callback receives.\<close>

definition frameTime :: "Session \<Rightarrow> real \<Rightarrow> real" where
  "frameTime s timestamp = (timestamp - latch s timestamp) / 1000"

definition speed :: real where
  "speed = 200"

text \<open>\<open>['LEFT', 'UP', 'DOWN', 'RIGHT'].indexOf(note.direction)\<close>, which is \<open>-1\<close> for \<open>undefined\<close>.\<close>

definition laneIndex :: "Direction option \<Rightarrow> int" where
  "laneIndex d = findIndex (\<lambda>l. l = d) [Some LEFT, Some UP, Some DOWN, Some RIGHT]"

definition laneX :: "Canvas \<Rightarrow> int \<Rightarrow> real" where
  "laneX canvas i = width canvas * (0.3 + real_of_int i * 0.15)"

text \<open>What one frame paints: the four target lines and one arrow per note.\<close>

record Drawing =
  lines :: "real list"
  arrows :: "(real \<times> real \<times> Direction option) list"

text \<open>
  One run of \<open>gameLoop\<close>: the state after the latch and the \<open>setNotes\<close> update, and the
  drawing, which paints the notes of the closure (their positions before the update).
\<close>

definition gameLoop :: "Session \<Rightarrow> real \<Rightarrow> Canvas \<Rightarrow> Session \<times> Drawing" where
  "gameLoop s timestamp canvas =
     (let currentTime = frameTime s timestamp
      in (s\<lparr>startTimeRef := latch s timestamp,
            notes := map (\<lambda>note. note\<lparr>y := ((time note - currentTime) * speed)
                                            + height canvas - 50\<rparr>) (notes s)\<rparr>,
          \<lparr>lines = map (laneX canvas) [0, 1, 2, 3],
           arrows = map (\<lambda>note. (laneX canvas (laneIndex (direction note)), y note,
                                  direction note)) (notes s)\<rparr>))"

section \<open>Starting (\<open>handleStart\<close>)\<close>

definition handleStart :: "Session \<Rightarrow> Session" where
  "handleStart s =
     s\<lparr>isPlaying := True, score := 0, startTimeRef := 0,
       audioRef := map_option (\<lambda>a. a\<lparr>audioCurrentTime := 0, audioPlaying := True\<rparr>)
                     (audioRef s)\<rparr>"

section \<open>The component as a transition system\<close>

text \<open>
  The four touch buttons are the only callers of \<open>handleKeyDown\<close>: no key listener is
  registered. Each passes an event object with a constant \<open>keyCode\<close>.
\<close>

datatype Button = ButtonLeft | ButtonUp | ButtonDown | ButtonRight

fun buttonKeyCode :: "Button \<Rightarrow> int" where
  "buttonKeyCode ButtonLeft = 37"
| "buttonKeyCode ButtonUp = 38"
| "buttonKeyCode ButtonDown = 40"
| "buttonKeyCode ButtonRight = 39"

text \<open>
  The events the component reacts to. The start button is rendered only while the session
  is not playing, so a click can reach \<open>handleStart\<close> only then; the frame callback is only
  scheduled by the effect while \<open>isPlaying\<close> holds; \<open>handleKeyDown\<close> carries its own guard.
  Events are handled one at a time, each on the state the previous one left: the closures
  of the handlers are taken to hold the current notes.
\<close>

datatype Event =
    MidiFetched "error + Track list"
  | StartClicked
  | TouchStart Button real
  | AnimationFrame real Canvas

fun step :: "Session \<Rightarrow> Event \<Rightarrow> Session" where
  "step s (MidiFetched fetched) = loadMidi s fetched"
| "step s StartClicked = (if \<not> isPlaying s then handleStart s else s)"
| "step s (TouchStart button now) = handleKeyDown s (buttonKeyCode button) now"
| "step s (AnimationFrame timestamp canvas) =
     (if isPlaying s then fst (gameLoop s timestamp canvas) else s)"

definition run :: "Event list \<Rightarrow> Session" where
  "run evs = foldl step initialSession evs"

text \<open>
  The parsed note list of a history: the list that the last successful \<open>loadMidi\<close> of the
  history handed to \<open>setNotes\<close>, empty when no load has succeeded. The component keeps no
  such copy; this is the list the active notes are compared with.
\<close>

fun parsedStep :: "Note list \<Rightarrow> Event \<Rightarrow> Note list" where
  "parsedStep ns (MidiFetched fetched) =
     (case midiNotes fetched of Inr ps \<Rightarrow> ps | Inl e \<Rightarrow> ns)"
| "parsedStep ns StartClicked = ns"
| "parsedStep ns (TouchStart button now) = ns"
| "parsedStep ns (AnimationFrame timestamp canvas) = ns"

definition parsed :: "Event list \<Rightarrow> Note list" where
  "parsed evs = foldl parsedStep [] evs"

section \<open>Scenarios\<close>

text \<open>
  Concrete sessions used to exercise the theorems below: a canvas of 800 by 600 pixels and
  tracks of one note each (an Up note at 2 s, a Left note at 5 s, and a note of pitch 60,
  which the table does not hold).
\<close>

definition demoCanvas :: Canvas where
  "demoCanvas = \<lparr>width = 800, height = 600\<rparr>"

definition upTrack :: Track where
  "upTrack = [\<lparr>evTime = 2, midi = 38\<rparr>]"

definition leftTrack :: Track where
  "leftTrack = [\<lparr>evTime = 5, midi = 37\<rparr>]"


text \<open>Loaded, started, and the first frame (timestamp 1000 ms) has latched the start time.\<close>

definition playing :: "Track \<Rightarrow> Session" where
  "playing track =
     run [MidiFetched (Inr [track]), StartClicked, AnimationFrame 1000 demoCanvas]"

text \<open>
  The Left-note session that receives no input: the first frame at timestamp \<open>t0\<close>, a later
  frame 6 s after it on canvas \<open>c\<close>.
\<close>

definition missed :: "real \<Rightarrow> Canvas \<Rightarrow> Session" where
  "missed t0 c =
     run [MidiFetched (Inr [leftTrack]), StartClicked, AnimationFrame t0 demoCanvas,
          AnimationFrame (t0 + 6000) c]"

section \<open>Facts about the array helpers\<close>

lemma findIndexFrom_first:
  "i < length xs \<Longrightarrow> P (xs ! i) \<Longrightarrow> (\<And>j. j < i \<Longrightarrow> \<not> P (xs ! j))
     \<Longrightarrow> findIndexFrom P k xs = k + int i"
proof (induction xs arbitrary: i k)
  case Nil
  then show ?case by simp
next
  case (Cons x xs)
  show ?case
  proof (cases i)
    case 0
    with Cons.prems show ?thesis by simp
  next
    case (Suc m)
    have nx: "\<not> P x" using Cons.prems(3) [of 0] Suc by simp
    have "findIndexFrom P (k + 1) xs = (k + 1) + int m"
    proof (rule Cons.IH)
      show "m < length xs" using Cons.prems(1) Suc by simp
      show "P (xs ! m)" using Cons.prems(2) Suc by simp
      show "\<not> P (xs ! j)" if "j < m" for j
        using Cons.prems(3) [of "Suc j"] that Suc by simp
    qed
    with nx Suc show ?thesis by simp
  qed
qed

lemma findIndexFrom_none:
  "(\<And>x. x \<in> set xs \<Longrightarrow> \<not> P x) \<Longrightarrow> findIndexFrom P k xs = -1"
  by (induction xs arbitrary: k) auto

lemma findIndexFrom_range:
  "0 \<le> k \<Longrightarrow> findIndexFrom P k xs \<noteq> -1 \<Longrightarrow>
     k \<le> findIndexFrom P k xs \<and> findIndexFrom P k xs < k + int (length xs)"
proof (induction xs arbitrary: k)
  case Nil
  then show ?case by simp
next
  case (Cons x xs)
  show ?case
  proof (cases "P x")
    case True
    then show ?thesis by simp
  next
    case False
    with Cons.prems have "findIndexFrom P (k + 1) xs \<noteq> -1" by simp
    with Cons.IH [of "k + 1"] Cons.prems(1) False show ?thesis by simp
  qed
qed

lemma first_index_exists:
  "\<exists>x\<in>set xs. P x \<Longrightarrow> \<exists>i<length xs. P (xs ! i) \<and> (\<forall>j<i. \<not> P (xs ! j))"
proof -
  assume "\<exists>x\<in>set xs. P x"
  then obtain n where n: "n < length xs \<and> P (xs ! n)" by (auto simp: in_set_conv_nth)
  define i where "i = (LEAST n. n < length xs \<and> P (xs ! n))"
  have "i < length xs \<and> P (xs ! i)" unfolding i_def using n by (rule LeastI)
  moreover have "\<not> P (xs ! j)" if "j < i" for j
  proof
    assume "P (xs ! j)"
    with that \<open>i < length xs \<and> P (xs ! i)\<close> have "j < length xs \<and> P (xs ! j)" by simp
    then have "i \<le> j" unfolding i_def by (rule Least_le)
    with that show False by simp
  qed
  ultimately show ?thesis by blast
qed

lemma filterFrom_keep:
  "k < j \<Longrightarrow> filterFrom (\<lambda>_ i. i \<noteq> k) j ys = ys"
  by (induction ys arbitrary: j) auto

lemma filterFrom_remove:
  "m < length xs \<Longrightarrow>
     filterFrom (\<lambda>_ i. i \<noteq> k + int m) k xs = take m xs @ drop (Suc m) xs"
proof (induction xs arbitrary: m k)
  case Nil
  then show ?case by simp
next
  case (Cons x xs)
  show ?case
  proof (cases m)
    case 0
    then show ?thesis by (simp add: filterFrom_keep)
  next
    case (Suc n)
    with Cons.prems have "n < length xs" by simp
    from Cons.IH [OF this, of "k + 1"] Suc show ?thesis by (simp add: add.assoc)
  qed
qed


lemma findIndex_first:
  "i < length xs \<Longrightarrow> P (xs ! i) \<Longrightarrow> (\<And>j. j < i \<Longrightarrow> \<not> P (xs ! j))
     \<Longrightarrow> findIndex P xs = int i"
  using findIndexFrom_first [of i xs P 0] by (simp add: findIndex_def)

lemma findIndex_none:
  "(\<And>x. x \<in> set xs \<Longrightarrow> \<not> P x) \<Longrightarrow> findIndex P xs = -1"
  by (simp add: findIndex_def findIndexFrom_none)

lemma filterIdx_remove:
  "m < length xs \<Longrightarrow> filterIdx (\<lambda>_ i. i \<noteq> int m) xs = take m xs @ drop (Suc m) xs"
  using filterFrom_remove [of m xs 0] by (simp add: filterIdx_def)

section \<open>The input judge\<close>

lemma handleKeyDown_idle:
  "\<not> isPlaying s \<Longrightarrow> handleKeyDown s k now = s"
  by (simp add: handleKeyDown_def)

lemma handleKeyDown_miss:
  assumes "\<And>n. n \<in> set (notes s) \<Longrightarrow> \<not> hitTest k (keyTime s now) n"
  shows "handleKeyDown s k now = s"
proof -
  have "noteIndex s k now = -1"
    unfolding noteIndex_def using assms by (rule findIndex_none)
  then show ?thesis by (simp add: handleKeyDown_def)
qed

lemma handleKeyDown_hit:
  assumes "isPlaying s" and "i < length (notes s)"
    and "hitTest k (keyTime s now) (notes s ! i)"
    and "\<And>j. j < i \<Longrightarrow> \<not> hitTest k (keyTime s now) (notes s ! j)"
  shows "handleKeyDown s k now =
           s\<lparr>score := score s + 100, notes := take i (notes s) @ drop (Suc i) (notes s)\<rparr>"
proof -
  have "noteIndex s k now = int i"
    unfolding noteIndex_def using assms(2-4) by (rule findIndex_first)
  then show ?thesis
    using assms(1,2) by (simp add: handleKeyDown_def filterIdx_remove)
qed


text \<open>The scenario session, evaluated.\<close>

lemma playing_eq:
  "playing track =
     \<lparr>notes = map (\<lambda>ev. \<lparr>time = evTime ev, direction = ARROW_KEYS (midi ev),
                              y = evTime ev * 200 + 550\<rparr>) track,
      isPlaying = True, score = 0, startTimeRef = 1000,
      audioRef = Some \<lparr>audioCurrentTime = 0, audioPlaying = True\<rparr>, console = []\<rparr>"
  by (simp add: playing_def run_def initialSession_def loadMidi_def midiNotes_def
      handleStart_def gameLoop_def frameTime_def latch_def speed_def demoCanvas_def
      toNote_def comp_def)


text \<open>
  Claim C4. An input while the session is playing: if some active note has the pressed
  direction within the hit window, the first such note in list order is removed, the score
  grows by exactly 100 and every other note and field stays as it was; if no note
  qualifies the state is unchanged; and while no session is playing the input changes
  nothing. The handler has no failing branch.
\<close>

theorem handleKeyDown_outcomes:
  "(\<not> isPlaying s \<longrightarrow> handleKeyDown s k now = s) \<and>
   (isPlaying s \<and> (\<forall>n\<in>set (notes s). \<not> hitTest k (keyTime s now) n)
      \<longrightarrow> handleKeyDown s k now = s) \<and>
   (isPlaying s \<and> (\<exists>n\<in>set (notes s). hitTest k (keyTime s now) n) \<longrightarrow>
      (\<exists>i<length (notes s).
          hitTest k (keyTime s now) (notes s ! i) \<and>
          (\<forall>j<i. \<not> hitTest k (keyTime s now) (notes s ! j)) \<and>
          handleKeyDown s k now =
            s\<lparr>score := score s + 100,
              notes := take i (notes s) @ drop (Suc i) (notes s)\<rparr>))"
proof (intro conjI impI)
  assume "\<not> isPlaying s"
  then show "handleKeyDown s k now = s" by (rule handleKeyDown_idle)
next
  assume "isPlaying s \<and> (\<forall>n\<in>set (notes s). \<not> hitTest k (keyTime s now) n)"
  then show "handleKeyDown s k now = s" by (simp add: handleKeyDown_miss)
next
  assume a: "isPlaying s \<and> (\<exists>n\<in>set (notes s). hitTest k (keyTime s now) n)"
  then obtain i where i: "i < length (notes s)" "hitTest k (keyTime s now) (notes s ! i)"
    "\<forall>j<i. \<not> hitTest k (keyTime s now) (notes s ! j)"
    using first_index_exists [of "notes s" "hitTest k (keyTime s now)"] by blast
  with a have "handleKeyDown s k now =
      s\<lparr>score := score s + 100, notes := take i (notes s) @ drop (Suc i) (notes s)\<rparr>"
    by (simp add: handleKeyDown_hit)
  with i show "\<exists>i<length (notes s).
          hitTest k (keyTime s now) (notes s ! i) \<and>
          (\<forall>j<i. \<not> hitTest k (keyTime s now) (notes s ! j)) \<and>
          handleKeyDown s k now =
            s\<lparr>score := score s + 100,
              notes := take i (notes s) @ drop (Suc i) (notes s)\<rparr>"
    by blast
qed


theorem handleKeyDown_outcomes_witness:
  "\<not> isPlaying (run [MidiFetched (Inr [upTrack])]) \<and>
   handleKeyDown (run [MidiFetched (Inr [upTrack])]) 38 3050 = run [MidiFetched (Inr [upTrack])] \<and>
   isPlaying (playing upTrack) \<and>
   \<not> hitTest 37 (keyTime (playing upTrack) 3050) (notes (playing upTrack) ! 0) \<and>
   handleKeyDown (playing upTrack) 37 3050 = playing upTrack \<and>
   hitTest 38 (keyTime (playing upTrack) 3050) (notes (playing upTrack) ! 0) \<and>
   handleKeyDown (playing upTrack) 38 3050 = (playing upTrack)\<lparr>score := 100, notes := []\<rparr>"
  using handleKeyDown_outcomes [of "run [MidiFetched (Inr [upTrack])]" 38 3050]
    handleKeyDown_outcomes [of "playing upTrack" 37 3050]
    handleKeyDown_outcomes [of "playing upTrack" 38 3050]
  by (simp add: playing_eq upTrack_def hitTest_def keyTime_def hitWindow_def ARROW_KEYS_def
      run_def initialSession_def loadMidi_def midiNotes_def)

lemma noteIndex_first:
  assumes "i < length (notes s)"
    and "hitTest k (keyTime s now) (notes s ! i)"
    and "\<And>j. j < i \<Longrightarrow> \<not> hitTest k (keyTime s now) (notes s ! j)"
  shows "noteIndex s k now = int i"
  unfolding noteIndex_def using assms by (rule findIndex_first)

lemma findIndexFrom_passes:
  "findIndexFrom P k xs = k + int i \<Longrightarrow> i < length xs \<Longrightarrow> 0 \<le> k \<Longrightarrow> P (xs ! i)"
proof (induction xs arbitrary: k i)
  case Nil
  then show ?case by simp
next
  case (Cons x xs)
  show ?case
  proof (cases "P x")
    case True
    with Cons.prems show ?thesis by simp
  next
    case False
    with Cons.prems have f: "findIndexFrom P (k + 1) xs = k + int i" by simp
    then have "findIndexFrom P (k + 1) xs \<noteq> -1" using Cons.prems(3) by simp
    with findIndexFrom_range [of "k + 1" P xs] Cons.prems(3) f
    have "k + 1 \<le> k + int i" by simp
    then obtain m where m: "i = Suc m" by (cases i) auto
    with f have "findIndexFrom P (k + 1) xs = (k + 1) + int m" by simp
    moreover have "m < length xs" using Cons.prems(2) m by simp
    ultimately have "P (xs ! m)" using Cons.IH [of "k + 1" m] Cons.prems(3) by simp
    with m show ?thesis by simp
  qed
qed

lemma noteIndex_passes:
  "noteIndex s k now = int i \<Longrightarrow> i < length (notes s)
     \<Longrightarrow> hitTest k (keyTime s now) (notes s ! i)"
  using findIndexFrom_passes [of "hitTest k (keyTime s now)" 0 "notes s" i]
  by (simp add: noteIndex_def findIndex_def)

section \<open>The frame callback\<close>

lemma gameLoop_notes:
  "notes (fst (gameLoop s ts c)) =
     map (\<lambda>n. n\<lparr>y := (time n - frameTime s ts) * 200 + height c - 50\<rparr>) (notes s)"
  by (simp add: gameLoop_def Let_def speed_def)

lemma gameLoop_keeps:
  "map (\<lambda>n. (time n, direction n)) (notes (fst (gameLoop s ts c))) =
     map (\<lambda>n. (time n, direction n)) (notes s)"
  by (simp add: gameLoop_notes comp_def)

text \<open>
  Claim C5. A frame at elapsed time \<open>frameTime s ts\<close> gives every note the vertical position
  \<open>(note.time - elapsed) * 200 + canvasHeight - 50\<close> and changes nothing else of it; so the
  position is \<open>canvasHeight - 50\<close> exactly when the elapsed time is the note's time, and
  the canvas width plays no part.
\<close>

theorem note_position:
  assumes "i < length (notes s)"
  shows "length (notes (fst (gameLoop s ts c))) = length (notes s) \<and>
    y (notes (fst (gameLoop s ts c)) ! i)
      = (time (notes s ! i) - frameTime s ts) * 200 + height c - 50 \<and>
    time (notes (fst (gameLoop s ts c)) ! i) = time (notes s ! i) \<and>
    direction (notes (fst (gameLoop s ts c)) ! i) = direction (notes s ! i) \<and>
    (y (notes (fst (gameLoop s ts c)) ! i) = height c - 50)
      = (frameTime s ts = time (notes s ! i)) \<and>
    notes (fst (gameLoop s ts (c\<lparr>width := w\<rparr>))) = notes (fst (gameLoop s ts c))"
  using assms by (auto simp: gameLoop_notes)

theorem note_position_witness:
  "frameTime (playing leftTrack) 6000 = time (notes (playing leftTrack) ! 0) \<and>
   y (notes (fst (gameLoop (playing leftTrack) 6000 demoCanvas)) ! 0) = height demoCanvas - 50 \<and>
   y (notes (fst (gameLoop (playing leftTrack) 6000 demoCanvas)) ! 0) = 550 \<and>
   y (notes (fst (gameLoop (playing leftTrack) 5000 demoCanvas)) ! 0) = 750 \<and>
   notes (fst (gameLoop (playing leftTrack) 6000 (demoCanvas\<lparr>width := 1024\<rparr>)))
     = notes (fst (gameLoop (playing leftTrack) 6000 demoCanvas))"
proof -
  have l: "0 < length (notes (playing leftTrack))"
    by (simp add: playing_eq leftTrack_def)
  from note_position [OF l, of 6000 demoCanvas 1024] note_position [OF l, of 5000 demoCanvas 1024]
  show ?thesis
    by (simp add: playing_eq leftTrack_def frameTime_def latch_def demoCanvas_def)
qed

lemma missed_eq:
  "t0 \<noteq> 0 \<Longrightarrow>
     notes (missed t0 c) = [\<lparr>time = 5, direction = Some LEFT, y = height c - 250\<rparr>]"
  by (simp add: missed_def run_def initialSession_def loadMidi_def midiNotes_def
      handleStart_def gameLoop_def frameTime_def latch_def speed_def leftTrack_def
      toNote_def ARROW_KEYS_def)

text \<open>
  Claim C9, as the code has it. With one Left note at 5 s and no input, the frame 6 s after
  the latched start puts the note at \<open>canvasHeight - 250\<close>: 200 pixels above the hit line at
  \<open>canvasHeight - 50\<close>, and negative only on a canvas lower than 250 pixels. The note is still
  in the active list, and no frame ever removes a note or changes its time or direction.
\<close>

theorem missed_note_stays:
  assumes "t0 \<noteq> 0"
  shows "length (notes (missed t0 c)) = 1 \<and>
    time (notes (missed t0 c) ! 0) = 5 \<and>
    direction (notes (missed t0 c) ! 0) = Some LEFT \<and>
    y (notes (missed t0 c) ! 0) = height c - 250 \<and>
    y (notes (missed t0 c) ! 0) < height c - 50 \<and>
    (y (notes (missed t0 c) ! 0) < 0) = (height c < 250) \<and>
    map (\<lambda>n. (time n, direction n)) (notes (fst (gameLoop s ts c)))
      = map (\<lambda>n. (time n, direction n)) (notes s)"
  using assms by (simp add: missed_eq gameLoop_keeps)

theorem missed_note_stays_witness:
  "(1000::real) \<noteq> 0 \<and>
   notes (missed 1000 demoCanvas) = [\<lparr>time = 5, direction = Some LEFT, y = 350\<rparr>] \<and>
   y (notes (missed 1000 \<lparr>width = 320, height = 240\<rparr>) ! 0) = - 10"
proof -
  have h: "(1000::real) \<noteq> 0" by simp
  have n: "notes (missed 1000 demoCanvas) = [notes (missed 1000 demoCanvas) ! 0]"
    using missed_note_stays [OF h, of demoCanvas]
    by (cases "notes (missed 1000 demoCanvas)") simp_all
  from missed_note_stays [OF h, of demoCanvas] missed_note_stays [OF h, of "\<lparr>width = 320, height = 240\<rparr>"]
  show ?thesis
    by (subst n) (simp add: demoCanvas_def)
qed

text \<open>On the 800 by 600 canvas the missed note is at 350 pixels, not at a negative position.\<close>

theorem missed_note_not_negative:
  "\<not> y (notes (run [MidiFetched (Inr [leftTrack]), StartClicked,
        AnimationFrame 1000 demoCanvas, AnimationFrame 7000 demoCanvas]) ! 0) < 0"
  using missed_eq [of 1000 demoCanvas] by (simp add: missed_def demoCanvas_def)

section \<open>Loading\<close>

lemma loadMidi_failure:
  "midiNotes fetched = Inl e \<Longrightarrow>
     loadMidi s fetched = s\<lparr>console := console s @ [''Failed to load MIDI:'']\<rparr>"
  by (simp add: loadMidi_def)


text \<open>
  Claim C7, as the code has it. When the fetch or the parse fails (or the file has no
  track) the \<open>catch\<close> writes one console message and touches nothing else: the note list
  is left as it was. It is empty when the load is the one at mount, and the game can then
  be started with zero notes.
\<close>

theorem load_failure_caught:
  assumes "midiNotes fetched = Inl e"
  shows "loadMidi s fetched = s\<lparr>console := console s @ [''Failed to load MIDI:'']\<rparr> \<and>
    notes (loadMidi s fetched) = notes s \<and>
    notes (loadMidi initialSession fetched) = [] \<and>
    isPlaying (handleStart (loadMidi initialSession fetched)) \<and>
    notes (handleStart (loadMidi initialSession fetched)) = []"
  using assms by (simp add: loadMidi_failure initialSession_def handleStart_def)

theorem load_failure_caught_witness:
  "midiNotes (Inl FetchError) = Inl FetchError \<and>
   midiNotes (Inl ParseError) = Inl ParseError \<and>
   midiNotes (Inr []) = Inl TypeError \<and>
   loadMidi initialSession (Inl FetchError)
     = initialSession\<lparr>console := [''Failed to load MIDI:'']\<rparr> \<and>
   notes (loadMidi initialSession (Inl ParseError)) = [] \<and>
   notes (loadMidi initialSession (Inr [])) = []"
proof -
  have f: "midiNotes (Inl FetchError) = Inl FetchError"
    and p: "midiNotes (Inl ParseError) = Inl ParseError"
    and t: "midiNotes (Inr []) = Inl TypeError"
    by (simp_all add: midiNotes_def)
  from load_failure_caught [OF f, of initialSession] load_failure_caught [OF p, of initialSession]
    load_failure_caught [OF t, of initialSession] f p t
  show ?thesis by (simp add: initialSession_def)
qed

text \<open>A failed load after a successful one leaves the earlier notes in place.\<close>

theorem failed_reload_keeps_notes:
  "notes (run [MidiFetched (Inr [upTrack]), MidiFetched (Inl FetchError)])
     = [\<lparr>time = 2, direction = Some UP, y = - 100\<rparr>] \<and>
   notes (run [MidiFetched (Inr [upTrack]), MidiFetched (Inl FetchError)]) \<noteq> []"
  by (simp add: run_def initialSession_def loadMidi_def midiNotes_def upTrack_def toNote_def
      ARROW_KEYS_def)



lemma handleKeyDown_cases:
  "handleKeyDown s k now = s \<or>
   (\<exists>i<length (notes s). isPlaying s \<and> noteIndex s k now = int i \<and>
      hitTest k (keyTime s now) (notes s ! i) \<and>
      handleKeyDown s k now =
        s\<lparr>score := score s + 100, notes := take i (notes s) @ drop (Suc i) (notes s)\<rparr>)"
proof (cases "isPlaying s \<and> (\<exists>n\<in>set (notes s). hitTest k (keyTime s now) n)")
  case True
  then obtain i where i: "i < length (notes s)" "hitTest k (keyTime s now) (notes s ! i)"
    "\<forall>j<i. \<not> hitTest k (keyTime s now) (notes s ! j)"
    using first_index_exists [of "notes s" "hitTest k (keyTime s now)"] by blast
  then have "noteIndex s k now = int i" by (simp add: noteIndex_first)
  moreover have "handleKeyDown s k now =
      s\<lparr>score := score s + 100, notes := take i (notes s) @ drop (Suc i) (notes s)\<rparr>"
    using True i by (simp add: handleKeyDown_hit)
  ultimately show ?thesis using True i by blast
next
  case False
  then have "handleKeyDown s k now = s"
    by (cases "isPlaying s") (simp_all add: handleKeyDown_idle handleKeyDown_miss)
  then show ?thesis by simp
qed

section \<open>Notes of unmapped pitches\<close>









section \<open>Sessions\<close>

lemma run_snoc: "run (evs @ [ev]) = step (run evs) ev"
  by (simp add: run_def)

lemma parsed_snoc: "parsed (evs @ [ev]) = parsedStep (parsed evs) ev"
  by (simp add: parsed_def)

lemma run_playing:
  "run [MidiFetched (Inr [track]), StartClicked, AnimationFrame 1000 demoCanvas] = playing track"
  by (simp add: playing_def)

lemma step_stays_playing: "isPlaying s \<Longrightarrow> isPlaying (step s ev)"
proof (cases ev)
  case (MidiFetched fetched)
  assume "isPlaying s"
  with MidiFetched show ?thesis by (simp add: loadMidi_def split: sum.split)
next
  case StartClicked
  assume "isPlaying s"
  with StartClicked show ?thesis by simp
next
  case (TouchStart b now)
  assume "isPlaying s"
  with TouchStart show ?thesis by (simp add: handleKeyDown_def)
next
  case (AnimationFrame ts c)
  assume "isPlaying s"
  with AnimationFrame show ?thesis by (simp add: gameLoop_def Let_def)
qed

text \<open>
  Before the first start nothing but a load changes the state: the score is 0 and the
  active notes are the parsed list.
\<close>

lemma idle_state:
  "\<not> isPlaying (run evs) \<Longrightarrow> score (run evs) = 0 \<and> notes (run evs) = parsed evs"
proof (induction evs rule: rev_induct)
  case Nil
  then show ?case by (simp add: run_def parsed_def initialSession_def)
next
  case (snoc ev evs)
  from snoc.prems have idle: "\<not> isPlaying (run evs)"
    using step_stays_playing [of "run evs" ev] by (auto simp: run_snoc)
  with snoc.IH have ih: "score (run evs) = 0" "notes (run evs) = parsed evs" by simp_all
  show ?case
  proof (cases ev)
    case (MidiFetched fetched)
    with ih show ?thesis
      by (simp add: run_snoc parsed_snoc loadMidi_def split: sum.split)
  next
    case StartClicked
    with snoc.prems idle show ?thesis by (simp add: run_snoc handleStart_def)
  next
    case (TouchStart b now)
    with ih idle show ?thesis by (simp add: run_snoc parsed_snoc handleKeyDown_idle)
  next
    case (AnimationFrame ts c)
    with ih idle show ?thesis by (simp add: run_snoc parsed_snoc)
  qed
qed





section \<open>The score\<close>

lemma playing_up_hit:
  "handleKeyDown (playing upTrack) 38 3050 = (playing upTrack)\<lparr>score := 100, notes := []\<rparr>"
  by (simp add: playing_eq upTrack_def handleKeyDown_def noteIndex_def findIndex_def
      hitTest_def keyTime_def hitWindow_def ARROW_KEYS_def filterIdx_def)

lemma playing_left_miss:
  "handleKeyDown (playing upTrack) 37 3050 = playing upTrack"
  by (simp add: playing_eq upTrack_def handleKeyDown_def noteIndex_def findIndex_def
      hitTest_def keyTime_def hitWindow_def ARROW_KEYS_def filterIdx_def)

text \<open>What one event does to the score: nothing, a reset by a start, or 100 for a hit.\<close>

lemma step_score:
  "score (step s ev) = score s \<or>
   (ev = StartClicked \<and> \<not> isPlaying s \<and> score (step s ev) = 0) \<or>
   (\<exists>b now i. ev = TouchStart b now \<and> isPlaying s \<and> i < length (notes s) \<and>
      noteIndex s (buttonKeyCode b) now = int i \<and>
      hitTest (buttonKeyCode b) (keyTime s now) (notes s ! i) \<and>
      notes (step s ev) = take i (notes s) @ drop (Suc i) (notes s) \<and>
      score (step s ev) = score s + 100)"
proof (cases ev)
  case (MidiFetched fetched)
  then show ?thesis by (simp add: loadMidi_def split: sum.split)
next
  case StartClicked
  then show ?thesis by (simp add: handleStart_def)
next
  case (TouchStart b now)
  consider "handleKeyDown s (buttonKeyCode b) now = s"
    | i where "i < length (notes s)" "isPlaying s" "noteIndex s (buttonKeyCode b) now = int i"
      "hitTest (buttonKeyCode b) (keyTime s now) (notes s ! i)"
      "handleKeyDown s (buttonKeyCode b) now =
        s\<lparr>score := score s + 100, notes := take i (notes s) @ drop (Suc i) (notes s)\<rparr>"
    using handleKeyDown_cases [of s "buttonKeyCode b" now] by blast
  then show ?thesis
  proof cases
    case 1
    with TouchStart show ?thesis by simp
  next
    case 2
    then have "ev = TouchStart b now \<and> isPlaying s \<and> i < length (notes s) \<and>
      noteIndex s (buttonKeyCode b) now = int i \<and>
      hitTest (buttonKeyCode b) (keyTime s now) (notes s ! i) \<and>
      notes (step s ev) = take i (notes s) @ drop (Suc i) (notes s) \<and>
      score (step s ev) = score s + 100"
      using TouchStart by simp
    then show ?thesis by blast
  qed
next
  case (AnimationFrame ts c)
  then show ?thesis by (simp add: gameLoop_def Let_def)
qed

lemma step_score_mod:
  "score s mod 100 = 0 \<Longrightarrow> score (step s ev) mod 100 = 0"
  using step_score [of s ev] by auto

lemma foldl_score_mod:
  "score s mod 100 = 0 \<Longrightarrow> score (foldl step s evs) mod 100 = 0"
  by (induction evs arbitrary: s) (simp_all add: step_score_mod)

lemma run_step_score_mono: "score (run evs) \<le> score (step (run evs) ev)"
  using step_score [of "run evs" ev] idle_state [of evs] by auto

lemma run_score_mono: "score (run evs) \<le> score (run (evs @ later))"
proof (induction later rule: rev_induct)
  case Nil
  then show ?case by simp
next
  case (snoc ev later)
  have "run (evs @ later @ [ev]) = step (run (evs @ later)) ev"
    using run_snoc [of "evs @ later" ev] by simp
  with snoc run_step_score_mono [of "evs @ later" ev] show ?case by simp
qed

text \<open>
  Claim C6. In every state the component reaches, the score is a multiple of 100; it never
  decreases, over any number of events; and a single event either leaves the score, or is
  the start of a session, which sets it to 0, or is an input that hits: the session is
  playing, the judge finds a note that passes the test, that note is removed, and the
  score grows by exactly 100.
\<close>

theorem score_invariant:
  "score (run evs) mod 100 = 0 \<and>
   score (run evs) \<le> score (run (evs @ later)) \<and>
   (score (step (run evs) ev) = score (run evs) \<or>
    (ev = StartClicked \<and> \<not> isPlaying (run evs) \<and> score (step (run evs) ev) = 0) \<or>
    (\<exists>b now i. ev = TouchStart b now \<and> isPlaying (run evs) \<and>
       i < length (notes (run evs)) \<and>
       noteIndex (run evs) (buttonKeyCode b) now = int i \<and>
       hitTest (buttonKeyCode b) (keyTime (run evs) now) (notes (run evs) ! i) \<and>
       notes (step (run evs) ev)
         = take i (notes (run evs)) @ drop (Suc i) (notes (run evs)) \<and>
       score (step (run evs) ev) = score (run evs) + 100))"
proof (intro conjI)
  show "score (run evs) mod 100 = 0"
    unfolding run_def by (rule foldl_score_mod) (simp add: initialSession_def)
  show "score (run evs) \<le> score (run (evs @ later))" by (rule run_score_mono)
  show "score (step (run evs) ev) = score (run evs) \<or>
    (ev = StartClicked \<and> \<not> isPlaying (run evs) \<and> score (step (run evs) ev) = 0) \<or>
    (\<exists>b now i. ev = TouchStart b now \<and> isPlaying (run evs) \<and>
       i < length (notes (run evs)) \<and>
       noteIndex (run evs) (buttonKeyCode b) now = int i \<and>
       hitTest (buttonKeyCode b) (keyTime (run evs) now) (notes (run evs) ! i) \<and>
       notes (step (run evs) ev)
         = take i (notes (run evs)) @ drop (Suc i) (notes (run evs)) \<and>
       score (step (run evs) ev) = score (run evs) + 100)"
    by (rule step_score)
qed

theorem score_invariant_witness:
  "score (playing upTrack) mod 100 = 0 \<and>
   score (playing upTrack) \<le> score (run ([MidiFetched (Inr [upTrack]), StartClicked,
      AnimationFrame 1000 demoCanvas] @ [TouchStart ButtonUp 3050])) \<and>
   score (step (playing upTrack) (TouchStart ButtonUp 3050)) = score (playing upTrack) + 100 \<and>
   notes (step (playing upTrack) (TouchStart ButtonUp 3050)) = [] \<and>
   score (step (playing upTrack) (TouchStart ButtonLeft 3050)) = score (playing upTrack)"
proof -
  have e: "run ([MidiFetched (Inr [upTrack]), StartClicked, AnimationFrame 1000 demoCanvas]
             @ [TouchStart ButtonUp 3050]) = (playing upTrack)\<lparr>score := 100, notes := []\<rparr>"
    by (simp only: run_snoc run_playing step.simps buttonKeyCode.simps playing_up_hit)
  have z: "score (playing upTrack) = 0" by (simp add: playing_eq)
  from score_invariant [of "[MidiFetched (Inr [upTrack]), StartClicked,
      AnimationFrame 1000 demoCanvas]" "[TouchStart ButtonUp 3050]" "TouchStart ButtonUp 3050"]
    score_invariant [of "[MidiFetched (Inr [upTrack]), StartClicked,
      AnimationFrame 1000 demoCanvas]" "[TouchStart ButtonUp 3050]" "TouchStart ButtonLeft 3050"]
    e z
  show ?thesis by (simp add: run_playing playing_up_hit playing_left_miss)
qed

section \<open>The two clocks\<close>

text \<open>
  Claim C2 says that the handler and the frame callback judge and draw with the same elapsed
  time. Both subtract the one latched \<open>startTimeRef\<close>, but from different clocks: the frame
  callback from its timestamp (milliseconds since the page's time origin), the handler
  from \<open>Date.now()\<close> (milliseconds since 1970). At a concrete instant: the start time is
  latched at timestamp 1000; 2050 ms later the frame callback computes 2.05 s, inside the
  window of the Up note at 2 s; \<open>Date.now()\<close> at that instant, for a page opened at
  1700000000000 ms of the epoch, reads 1700000003050, so the handler computes
  1700000002.05 s and the input misses.
\<close>

theorem key_clock_is_not_frame_clock:
  "startTimeRef (playing upTrack) = 1000 \<and>
   frameTime (playing upTrack) 3050 = 2.05 \<and>
   hitTest 38 (frameTime (playing upTrack) 3050) (notes (playing upTrack) ! 0) \<and>
   keyTime (playing upTrack) 1700000003050 = 1700000002.05 \<and>
   handleKeyDown (playing upTrack) 38 1700000003050 = playing upTrack"
  by (simp add: playing_eq upTrack_def frameTime_def latch_def keyTime_def hitTest_def
      hitWindow_def ARROW_KEYS_def handleKeyDown_def noteIndex_def findIndex_def)

end
